theory Spec2Isabelle
  imports Main "HOL-Library.Word"
begin

section \<open>Stream admission: types.ConnectionManager\<close>

text \<open>
  \<^verbatim>\<open>type ConnectionManager struct { activeStreams int64; maxStreams int64 }\<close>
  Both fields are Go \<^verbatim>\<open>int64\<close>: 64-bit words, read as two's complement by \<open>sint\<close>.
  Addition wraps, as \<^verbatim>\<open>atomic.AddInt64\<close> does.
\<close>

type_synonym int64 = "64 word"

record ConnectionManager =
  activeStreams :: int64
  maxStreams :: int64

definition NewConnectionManager :: "int64 \<Rightarrow> ConnectionManager" where
  "NewConnectionManager m = \<lparr>activeStreams = 0, maxStreams = m\<rparr>"

text \<open>
  One call of \<^verbatim>\<open>TryAcquire\<close> that runs without interference: load the counter,
  compare (signed) with the capacity, add one. The result is the returned flag and the
  manager afterwards.
\<close>

definition TryAcquire :: "ConnectionManager \<Rightarrow> bool \<times> ConnectionManager" where
  "TryAcquire cm =
     (let current = activeStreams cm in
      if sint (maxStreams cm) \<le> sint current then (False, cm)
      else (True, cm\<lparr>activeStreams := activeStreams cm + 1\<rparr>))"

definition Release :: "ConnectionManager \<Rightarrow> ConnectionManager" where
  "Release cm = cm\<lparr>activeStreams := activeStreams cm + (- 1)\<rparr>"

definition GetActiveCount :: "ConnectionManager \<Rightarrow> int64" where
  "GetActiveCount cm = activeStreams cm"

subsection \<open>Sequences of calls by one caller\<close>

text \<open>
  A quiescent history: calls that do not overlap, each run to completion before the
  next starts. The run keeps, beside the manager, the number of \<^verbatim>\<open>TryAcquire\<close>
  calls that returned true and the number of \<^verbatim>\<open>Release\<close> calls made.
\<close>

datatype cm_op = OpTryAcquire | OpRelease

record cm_run =
  manager :: ConnectionManager
  acquired :: nat
  released :: nat

definition cm_start :: "int64 \<Rightarrow> cm_run" where
  "cm_start m = \<lparr>manager = NewConnectionManager m, acquired = 0, released = 0\<rparr>"

fun cm_step :: "cm_run \<Rightarrow> cm_op \<Rightarrow> cm_run" where
  "cm_step r OpTryAcquire =
     (case TryAcquire (manager r) of
        (ok, cm') \<Rightarrow> r\<lparr>manager := cm', acquired := (if ok then Suc (acquired r) else acquired r)\<rparr>)"
| "cm_step r OpRelease = r\<lparr>manager := Release (manager r), released := Suc (released r)\<rparr>"

definition cm_exec :: "cm_run \<Rightarrow> cm_op list \<Rightarrow> cm_run" where
  "cm_exec r ops = foldl cm_step r ops"

text \<open>
  Every \<^verbatim>\<open>Release\<close> of the history is matched to an earlier successful
  \<^verbatim>\<open>TryAcquire\<close> that no other \<^verbatim>\<open>Release\<close> has used.
\<close>

fun releases_matched :: "cm_run \<Rightarrow> cm_op list \<Rightarrow> bool" where
  "releases_matched r [] = True"
| "releases_matched r (OpTryAcquire # ops) = releases_matched (cm_step r OpTryAcquire) ops"
| "releases_matched r (OpRelease # ops) =
     (released r < acquired r \<and> releases_matched (cm_step r OpRelease) ops)"

text \<open>
  The data-model invariant of the counter on a run: the capacity is the one the manager
  was created with, and the signed count is the balance of the run, between 0 and the
  capacity.
\<close>

definition cm_inv :: "int64 \<Rightarrow> cm_run \<Rightarrow> bool" where
  "cm_inv m r \<longleftrightarrow>
     maxStreams (manager r) = m
     \<and> sint (activeStreams (manager r)) = int (acquired r) - int (released r)
     \<and> 0 \<le> sint (activeStreams (manager r))
     \<and> sint (activeStreams (manager r)) \<le> sint m"

subsection \<open>Concurrent callers\<close>

text \<open>
  \<^verbatim>\<open>TryAcquire\<close> touches the shared counter twice: \<^verbatim>\<open>atomic.LoadInt64\<close>, then,
  after the comparison on the loaded value, \<^verbatim>\<open>atomic.AddInt64\<close>. Each of the two
  is atomic (Go's atomics are sequentially consistent), the pair is not. A caller is at
  one of three points: before the load, holding the loaded value \<^verbatim>\<open>current\<close>, or
  returned. A schedule names, step by step, the caller that moves next.
\<close>

datatype acquire_pc = NotStarted | Loaded int64 | Returned bool

fun caller_step :: "ConnectionManager \<Rightarrow> acquire_pc \<Rightarrow> ConnectionManager \<times> acquire_pc" where
  "caller_step cm NotStarted = (cm, Loaded (activeStreams cm))"
| "caller_step cm (Loaded current) =
     (if sint (maxStreams cm) \<le> sint current then (cm, Returned False)
      else (cm\<lparr>activeStreams := activeStreams cm + 1\<rparr>, Returned True))"
| "caller_step cm (Returned b) = (cm, Returned b)"

record shared_run =
  shared :: ConnectionManager
  callers :: "acquire_pc list"

definition sched_step :: "shared_run \<Rightarrow> nat \<Rightarrow> shared_run" where
  "sched_step s i =
     (if i < length (callers s)
      then (case caller_step (shared s) (callers s ! i) of
              (cm', pc') \<Rightarrow> \<lparr>shared = cm', callers = (callers s)[i := pc']\<rparr>)
      else s)"

definition interleave :: "shared_run \<Rightarrow> nat list \<Rightarrow> shared_run" where
  "interleave s sched = foldl sched_step s sched"

definition concurrent_start :: "int64 \<Rightarrow> nat \<Rightarrow> shared_run" where
  "concurrent_start m n = \<lparr>shared = NewConnectionManager m, callers = replicate n NotStarted\<rparr>"

section \<open>Font cache: render/fonts.go\<close>

text \<open>
  What the package asks of the operating system and of its libraries is a parameter of
  the model: \<^verbatim>\<open>os.Stat\<close> (with what \<^verbatim>\<open>os.IsNotExist\<close> and
  \<^verbatim>\<open>info.IsDir\<close> say of its result), \<^verbatim>\<open>os.Open\<close> (the bytes of the file, or a
  failure), \<^verbatim>\<open>filepath.Join\<close>, and the glyph renderer of go-figure
  (\<^verbatim>\<open>figure.NewFigureWithFont(text, file, true).String()\<close>).
\<close>

datatype stat_result = StatNotExist | StatFailed | StatInfo bool

record os_env =
  Stat :: "string \<Rightarrow> stat_result"
  Open :: "string \<Rightarrow> string option"
  Join :: "string \<Rightarrow> string \<Rightarrow> string"
  figure :: "string \<Rightarrow> string \<Rightarrow> string"

record Font =
  Name :: string
  fontPath :: string

text \<open>
  \<^verbatim>\<open>fonts map[string]*Font\<close>; the mutex is not part of the value. Every pointer
  the package stores in the map is the address of a fresh \<^verbatim>\<open>Font\<close>, so the values
  are fonts; a \<^verbatim>\<open>*Font\<close> that may be nil is a \<open>Font option\<close>.
\<close>

record FontCache =
  fonts :: "string \<rightharpoonup> Font"

definition NewFontCache :: FontCache where
  "NewFontCache = \<lparr>fonts = Map.empty\<rparr>"

text \<open>\<^verbatim>\<open>config.FontConfig\<close>\<close>

record FontConfig =
  Default :: string
  Path :: string
  Allowed :: "string list"

datatype validate_error = DoesNotExist | CannotAccess | IsDirectory | CannotRead

definition ValidateFont :: "os_env \<Rightarrow> string \<Rightarrow> validate_error option" where
  "ValidateFont env path =
     (case Stat env path of
        StatNotExist \<Rightarrow> Some DoesNotExist
      | StatFailed \<Rightarrow> Some CannotAccess
      | StatInfo isDir \<Rightarrow>
          if isDir then Some IsDirectory
          else (case Open env path of None \<Rightarrow> Some CannotRead | Some file \<Rightarrow> None))"

text \<open>
  The lines \<^verbatim>\<open>LoadFonts\<close> logs: a warning for a skipped name, a line for a loaded
  one, and the closing count.
\<close>

datatype log_line = Warning string validate_error | Loaded_font string | Loaded_count nat

text \<open>
  The body of the \<^verbatim>\<open>for _, fontName := range cfg.Allowed\<close> loop, on the map, the
  counter \<^verbatim>\<open>loadedCount\<close> and the log so far.
\<close>

fun LoadFonts_loop ::
  "os_env \<Rightarrow> string \<Rightarrow> string list \<Rightarrow> (string \<rightharpoonup> Font) \<times> nat \<times> log_line list
     \<Rightarrow> (string \<rightharpoonup> Font) \<times> nat \<times> log_line list" where
  "LoadFonts_loop env dir [] acc = acc"
| "LoadFonts_loop env dir (fontName # rest) (m, loadedCount, lg) =
     (let fontPath = Join env dir (fontName @ ''.flf'') in
      case ValidateFont env fontPath of
        Some err \<Rightarrow> LoadFonts_loop env dir rest (m, loadedCount, lg @ [Warning fontName err])
      | None \<Rightarrow>
          LoadFonts_loop env dir rest
            (m(fontName \<mapsto> \<lparr>Name = fontName, fontPath = fontPath\<rparr>),
             loadedCount + 1, lg @ [Loaded_font fontName]))"

text \<open>
  \<^verbatim>\<open>LoadFonts\<close> returns the cache as it has become, the log, and its
  \<^verbatim>\<open>error\<close> result (an error message, or \<open>None\<close> for nil).
\<close>

definition LoadFonts ::
  "os_env \<Rightarrow> FontConfig \<Rightarrow> FontCache \<Rightarrow> FontCache \<times> log_line list \<times> string option" where
  "LoadFonts env cfg fc =
     (case LoadFonts_loop env (Path cfg) (Allowed cfg) (fonts fc, 0, []) of
        (m, loadedCount, lg) \<Rightarrow> (fc\<lparr>fonts := m\<rparr>, lg @ [Loaded_count loadedCount], None))"

definition GetFont :: "FontCache \<Rightarrow> string \<Rightarrow> Font option \<times> bool" where
  "GetFont fc name = (fonts fc name, fonts fc name \<noteq> None)"

definition GetFontOrDefault :: "FontCache \<Rightarrow> string \<Rightarrow> string \<Rightarrow> Font option" where
  "GetFontOrDefault fc name defaultName =
     (case fonts fc name of
        Some font \<Rightarrow> Some font
      | None \<Rightarrow> (case fonts fc defaultName of Some font \<Rightarrow> Some font | None \<Rightarrow> None))"

datatype font_error = FontIsNil | OpenFailed

definition Font_Render :: "os_env \<Rightarrow> Font option \<Rightarrow> string \<Rightarrow> font_error + string" where
  "Font_Render env f text =
     (case f of
        None \<Rightarrow> Inl FontIsNil
      | Some fnt \<Rightarrow>
          (case Open env (fontPath fnt) of
             None \<Rightarrow> Inl OpenFailed
           | Some file \<Rightarrow> Inr (figure env text file)))"

section \<open>Rendering: render/figlet.go\<close>

record RenderOptions =
  Font :: string
  Color :: string
  MaxWidth :: int
  Timeout :: int
  Speed :: int
  Align :: string
  Border :: string

definition DefaultFont :: string where
  "DefaultFont = ''standard''"

text \<open>
  The three errors of \<^verbatim>\<open>GenerateASCII\<close>: "font cache is nil", "no fonts loaded",
  and "failed to render text" wrapping the font's error. A Go result
  \<^verbatim>\<open>("", err)\<close> is \<open>Inl err\<close>, a result \<^verbatim>\<open>(ascii, nil)\<close> is \<open>Inr ascii\<close>.
\<close>

datatype render_error = FontCacheIsNil | NoFontsLoaded | RenderFailed font_error

definition GenerateASCII ::
  "os_env \<Rightarrow> string \<Rightarrow> RenderOptions \<Rightarrow> FontCache option \<Rightarrow> render_error + string" where
  "GenerateASCII env text opts cache =
     (case cache of
        None \<Rightarrow> Inl FontCacheIsNil
      | Some fc \<Rightarrow>
          if text = [] then Inr []
          else (case GetFontOrDefault fc (Font opts) DefaultFont of
                  None \<Rightarrow> Inl NoFontsLoaded
                | Some font \<Rightarrow>
                    (case Font_Render env (Some font) text of
                       Inl err \<Rightarrow> Inl (RenderFailed err)
                     | Inr ascii \<Rightarrow> Inr ascii)))"

subsection \<open>A sample installation\<close>

text \<open>
  A disk with the directory \<^verbatim>\<open>fonts\<close> holding the two regular, readable files
  \<^verbatim>\<open>standard.flf\<close> and \<^verbatim>\<open>doom.flf\<close> and nothing else; paths are joined
  with a slash; the stand-in renderer writes the text after the name of the font file's
  first line. The configuration allows a third font, whose file is not there.
\<close>

definition sample_disk :: os_env where
  "sample_disk =
     \<lparr>Stat = (\<lambda>p. if p = ''fonts/standard.flf'' \<or> p = ''fonts/doom.flf'' then StatInfo False
                   else if p = ''fonts'' then StatInfo True
                   else StatNotExist),
      Open = (\<lambda>p. if p = ''fonts/standard.flf'' then Some ''flf2a standard''
                   else if p = ''fonts/doom.flf'' then Some ''flf2a doom''
                   else None),
      Join = (\<lambda>dir file. dir @ ''/'' @ file),
      figure = (\<lambda>text file. file @ '': '' @ text)\<rparr>"

definition sample_config :: FontConfig where
  "sample_config =
     \<lparr>Default = ''standard'', Path = ''fonts'',
      Allowed = [''standard'', ''doom'', ''missing-file'']\<rparr>"

definition sample_options :: RenderOptions where
  "sample_options =
     \<lparr>Font = ''nonexistent'', Color = ''rainbow'', MaxWidth = 0, Timeout = 100, Speed = 5,
      Align = ''left'', Border = []\<rparr>"

definition sample_cache :: FontCache where
  "sample_cache = fst (LoadFonts sample_disk sample_config NewFontCache)"

section \<open>The party-mode handler and its animation loop\<close>

subsection \<open>Durations and the two timeout rules\<close>

text \<open>
  A \<^verbatim>\<open>time.Duration\<close> is an \<^verbatim>\<open>int64\<close> count of nanoseconds, and \<^verbatim>\<open>int\<close> is
  64 bits wide; both are integers here, with the wrap-around of the one multiplication
  the code performs on a request's value written out (\<open>wrap64\<close>).
\<close>

definition wrap64 :: "int \<Rightarrow> int" where
  "wrap64 x = (x + 2 ^ 63) mod 2 ^ 64 - 2 ^ 63"

definition Millisecond :: int where
  "Millisecond = 1000000"

definition Second :: int where
  "Second = 1000000000"

definition Minute :: int where
  "Minute = 60 * Second"

definition DefaultStreamTimeout :: int where
  "DefaultStreamTimeout = 5 * Minute"

definition MinSpeed :: int where
  "MinSpeed = 1"

definition MaxSpeed :: int where
  "MaxSpeed = 10"

text \<open>
  \<^verbatim>\<open>partyHandler\<close>, "Apply timeout limits": the value left in \<^verbatim>\<open>opts.Timeout\<close>,
  from the server's \<^verbatim>\<open>config.Server.MaxStreamDuration\<close> and the requested value.
  The conversion \<^verbatim>\<open>int(d.Seconds())\<close> belongs to Go's \<^verbatim>\<open>time\<close> package and goes
  through a \<^verbatim>\<open>float64\<close> (\<^verbatim>\<open>float64(d / Second) + float64(d % Second) / 1e9\<close>, then
  truncated); it is the parameter \<open>seconds\<close>, and what a property needs of it is
  among that property's hypotheses.
\<close>

definition applyTimeoutLimits :: "(int \<Rightarrow> int) \<Rightarrow> int \<Rightarrow> int \<Rightarrow> int" where
  "applyTimeoutLimits seconds maxStreamDuration timeout =
     (if timeout = 0 \<or> timeout > seconds maxStreamDuration
      then seconds DefaultStreamTimeout
      else timeout)"

text \<open>
  \<^verbatim>\<open>streamAnimated\<close>, "Setup timeout with maximum limit": the duration the timer
  is created with.
\<close>

definition timeoutDuration :: "int \<Rightarrow> int \<Rightarrow> int" where
  "timeoutDuration maxStreamDuration timeout =
     (if timeout > 0
      then (let d = wrap64 (timeout * Second)
            in if d > maxStreamDuration then maxStreamDuration else d)
      else DefaultStreamTimeout)"

text \<open>The deadline of a stream: the second rule applied to the result of the first.\<close>

definition effectiveDeadline :: "(int \<Rightarrow> int) \<Rightarrow> int \<Rightarrow> int \<Rightarrow> int" where
  "effectiveDeadline seconds maxStreamDuration requested =
     timeoutDuration maxStreamDuration (applyTimeoutLimits seconds maxStreamDuration requested)"

text \<open>
  For the samples below: on a duration of whole seconds that is not negative, the
  \<^verbatim>\<open>float64\<close> holds the number of seconds exactly (it is far below 2^53), and
  \<^verbatim>\<open>int(d.Seconds())\<close> is the quotient. The samples use it on such durations only
  (30 s, 300 s, 600 s).
\<close>

definition sample_seconds :: "int \<Rightarrow> int" where
  "sample_seconds d = d div Second"

definition calculateFrameDelay :: "int \<Rightarrow> int" where
  "calculateFrameDelay speed =
     (let speed1 = (if speed < MinSpeed then MinSpeed else speed);
          speed2 = (if speed1 > MaxSpeed then MaxSpeed else speed1);
          delay = 220 - speed2 * 20
      in delay * Millisecond)"

subsection \<open>Input cleaning and option validation\<close>

definition ReplaceAll_plus :: "string \<Rightarrow> string" where
  "ReplaceAll_plus text = map (\<lambda>c. if c = CHR ''+'' then CHR '' '' else c) text"

text \<open>
  \<^verbatim>\<open>cleanForFiglet\<close> keeps the runes 32..126, newline and tab, and cuts the result
  to 100 bytes. A string is its bytes here; every byte of a rune above 126 is above 127
  (and a byte that is no valid encoding reads as U+FFFD), so dropping those bytes drops
  exactly those runes.
\<close>

definition cleanForFiglet :: "string \<Rightarrow> string" where
  "cleanForFiglet text =
     take 100 (filter (\<lambda>c. (32 \<le> (of_char c :: nat) \<and> (of_char c :: nat) \<le> 126)
                           \<or> c = CHR 0x0A \<or> c = CHR 0x09) text)"

definition validFonts :: "string list" where
  "validFonts = [''doom'', ''3d'', ''big'', ''bloody'', ''standard'', ''slant'', ''small'', ''shadow'']"

definition validAligns :: "string list" where
  "validAligns = [''left'', ''center'', ''right'']"

definition validateOptions :: "RenderOptions \<Rightarrow> string option" where
  "validateOptions opts =
     (if Font opts \<noteq> [] \<and> Font opts \<notin> set validFonts
      then Some (''invalid font: '' @ Font opts)
      else if Speed opts < 0 \<or> Speed opts > MaxSpeed
      then Some ''speed must be between 1 and 10''
      else if Align opts \<noteq> [] \<and> Align opts \<notin> set validAligns
      then Some (''invalid alignment: '' @ Align opts)
      else None)"

subsection \<open>Server state\<close>

text \<open>
  The counters of \<^verbatim>\<open>Metrics\<close> that the party-mode path updates, the shared
  connection manager, and a count of the calls of \<^verbatim>\<open>connManager.Release()\<close> made
  so far (kept by the model, to state how often a session releases).
\<close>

record Metrics =
  PartyRequests :: int64
  ActiveStreams :: int64
  RejectedStreams :: int64
  TotalErrors :: int64

record server =
  connManager :: ConnectionManager
  metrics :: Metrics
  releaseCalls :: nat

definition call_Release :: "server \<Rightarrow> server" where
  "call_Release srv =
     srv\<lparr>connManager := Release (connManager srv), releaseCalls := Suc (releaseCalls srv)\<rparr>"

definition add_PartyRequests :: "server \<Rightarrow> server" where
  "add_PartyRequests srv =
     srv\<lparr>metrics := (metrics srv)\<lparr>PartyRequests := PartyRequests (metrics srv) + 1\<rparr>\<rparr>"

definition add_RejectedStreams :: "server \<Rightarrow> server" where
  "add_RejectedStreams srv =
     srv\<lparr>metrics := (metrics srv)\<lparr>RejectedStreams := RejectedStreams (metrics srv) + 1\<rparr>\<rparr>"

definition add_TotalErrors :: "server \<Rightarrow> server" where
  "add_TotalErrors srv =
     srv\<lparr>metrics := (metrics srv)\<lparr>TotalErrors := TotalErrors (metrics srv) + 1\<rparr>\<rparr>"

definition add_ActiveStreams :: "int64 \<Rightarrow> server \<Rightarrow> server" where
  "add_ActiveStreams d srv =
     srv\<lparr>metrics := (metrics srv)\<lparr>ActiveStreams := ActiveStreams (metrics srv) + d\<rparr>\<rparr>"

subsection \<open>The timer of a stream\<close>

text \<open>
  \<^verbatim>\<open>time.NewTimer(d)\<close> fires once, \<open>d\<close> after its creation (at once when
  \<open>d\<close> is not positive), by sending on its channel. \<^verbatim>\<open>Stop\<close> prevents a timer
  that has not fired from firing; the value of one that has fired stays in the channel
  (the module is at go 1.21). Times are nanoseconds elapsed since the creation of the
  timer. A timer is its duration and, once stopped, the time of the \<^verbatim>\<open>Stop\<close>.
\<close>

record Timer =
  duration :: int
  stoppedAt :: "int option"

definition NewTimer :: "int \<Rightarrow> Timer" where
  "NewTimer d = \<lparr>duration = d, stoppedAt = None\<rparr>"

definition Timer_Stop :: "int \<Rightarrow> Timer \<Rightarrow> Timer" where
  "Timer_Stop now tm = tm\<lparr>stoppedAt := Some now\<rparr>"

text \<open>
  Whether a receive from the timer's channel can succeed at a given time: the timer has
  fired by then, and was not stopped before it fired.
\<close>

definition Timer_delivers :: "Timer \<Rightarrow> int \<Rightarrow> bool" where
  "Timer_delivers tm now =
     (let fires = max 0 (duration tm)
      in fires \<le> now \<and> (case stoppedAt tm of None \<Rightarrow> True | Some s \<Rightarrow> fires \<le> s))"

subsection \<open>Responses and outcomes\<close>

text \<open>
  What \<^verbatim>\<open>streamAnimated\<close> hands to \<^verbatim>\<open>SetBodyStreamWriter\<close>: the writer closes
  over the rendered art, the timer (the variable \<^verbatim>\<open>timeout\<close>, shared with
  \<^verbatim>\<open>streamAnimated\<close>) and the frame delay. The framework runs the writer outside
  the handler, which returns without waiting for it.
\<close>

record stream_writer =
  art :: string
  timer :: Timer
  frameDelay :: int

datatype response = SendString nat string | BodyStream stream_writer

text \<open>A handler returns a response or is left by a panic.\<close>

datatype outcome = Returns response | Panics

text \<open>
  The main package's \<^verbatim>\<open>generateASCII\<close> is a parameter of the handler: it returns
  the art, returns an error, or panics.
\<close>

datatype ascii_result = Ascii string | AsciiError | AsciiPanic

text \<open>
  What the handler takes from outside: the renderer, the conversion
  \<^verbatim>\<open>int(d.Seconds())\<close>, the configured \<^verbatim>\<open>config.Server.MaxStreamDuration\<close>, and
  the time \<^verbatim>\<open>streamAnimated\<close> takes from creating the timer to returning.
\<close>

record party_env =
  generateASCII :: "string \<Rightarrow> RenderOptions \<Rightarrow> ascii_result"
  seconds :: "int \<Rightarrow> int"
  maxStreamDuration :: int
  returnsAfter :: int

subsection \<open>streamAnimated and partyHandler\<close>

text \<open>
  \<^verbatim>\<open>defer timeout.Stop()\<close> is registered once the timer exists, so it runs on the
  way out that returns the stream, at the time of that return; the writer then holds a
  stopped timer.
\<close>

fun deferred_Stop :: "int \<Rightarrow> outcome \<Rightarrow> outcome" where
  "deferred_Stop now (Returns (BodyStream w)) =
     Returns (BodyStream (w\<lparr>timer := Timer_Stop now (timer w)\<rparr>))"
| "deferred_Stop now out = out"

text \<open>
  \<^verbatim>\<open>defer atomic.AddInt64(&metrics.ActiveStreams, -1)\<close> runs on every way out of
  \<^verbatim>\<open>streamAnimated\<close>, the panic included.
\<close>

definition streamAnimated ::
  "party_env \<Rightarrow> server \<Rightarrow> string \<Rightarrow> RenderOptions \<Rightarrow> server \<times> outcome" where
  "streamAnimated env srv text opts =
     (let srv1 = add_ActiveStreams 1 srv;
          (srv2, out) =
            (case generateASCII env text opts of
               AsciiPanic \<Rightarrow> (srv1, Panics)
             | AsciiError \<Rightarrow>
                 (add_TotalErrors srv1, Returns (SendString 500 ''Error generating ASCII art''))
             | Ascii ascii \<Rightarrow>
                 (srv1, Returns (BodyStream
                    \<lparr>art = ascii,
                     timer = NewTimer (timeoutDuration (maxStreamDuration env) (Timeout opts)),
                     frameDelay = calculateFrameDelay (Speed opts)\<rparr>)))
      in (add_ActiveStreams (- 1) srv2, deferred_Stop (returnsAfter env) out))"

text \<open>
  The part of \<^verbatim>\<open>partyHandler\<close> after \<^verbatim>\<open>defer connManager.Release()\<close>, with its
  four ways out: no text, no valid character, invalid options, and the stream.
\<close>

definition partyHandler_admitted ::
  "party_env \<Rightarrow> server \<Rightarrow> string \<Rightarrow> RenderOptions \<Rightarrow> server \<times> outcome" where
  "partyHandler_admitted env srv param opts =
     (if param = [] then (srv, Returns (SendString 400 ''Error: No text provided''))
      else let text = cleanForFiglet (ReplaceAll_plus param) in
        if length text = 0
        then (srv, Returns (SendString 400 ''Error: Text contains no valid characters''))
        else (case validateOptions opts of
                Some err \<Rightarrow> (srv, Returns (SendString 400 (''Error: '' @ err)))
              | None \<Rightarrow>
                  streamAnimated env srv text
                    (opts\<lparr>Timeout :=
                       applyTimeoutLimits (seconds env) (maxStreamDuration env) (Timeout opts)\<rparr>)))"

text \<open>
  \<^verbatim>\<open>partyHandler\<close>: count the request, try to acquire a slot, answer 503 without it;
  with it, run the rest and then the deferred \<^verbatim>\<open>Release\<close>, whichever way the rest
  was left.
\<close>

definition partyHandler ::
  "party_env \<Rightarrow> server \<Rightarrow> string \<Rightarrow> RenderOptions \<Rightarrow> server \<times> outcome" where
  "partyHandler env srv param opts =
     (let srv1 = add_PartyRequests srv in
      case TryAcquire (connManager srv1) of
        (False, cm') \<Rightarrow>
          (add_RejectedStreams srv1,
           Returns (SendString 503 ''Error: Too many active streams. Please try again later.''))
      | (True, cm') \<Rightarrow>
          (case partyHandler_admitted env (srv1\<lparr>connManager := cm'\<rparr>) param opts of
             (srv2, out) \<Rightarrow> (call_Release srv2, out)))"

subsection \<open>The animation loop\<close>

text \<open>
  Each turn of the loop waits in \<^verbatim>\<open>select\<close> for the timer's channel or the
  ticker's. The ticker ticks for ever; what the connection contributes is, for each
  tick the loop gets to, the time at which it is received and whether the flush of the
  frame written for it succeeded. A turn whose tick comes when the timer's channel can
  deliver takes the timeout case (where both are ready Go may take either; the model
  takes the timer), writes the colour reset and ends the loop; otherwise the frame is
  written, and a failed flush ends the loop (the client is gone). On a list of ticks that
  holds no such turn the loop is still running when the list ends.
\<close>

datatype tick = Tick (at: int) (flushed: bool)

datatype stream_write = ClearScreen | Frame nat | ColorReset

datatype loop_exit = TimedOut | ClientGone | StillStreaming

fun animationLoop :: "Timer \<Rightarrow> nat \<Rightarrow> tick list \<Rightarrow> stream_write list \<times> loop_exit" where
  "animationLoop tm frame [] = ([], StillStreaming)"
| "animationLoop tm frame (Tick now ok # ticks) =
     (if Timer_delivers tm now then ([ColorReset], TimedOut)
      else if ok
      then (case animationLoop tm (frame + 1) ticks of (ws, ex) \<Rightarrow> (Frame frame # ws, ex))
      else ([Frame frame], ClientGone))"

definition bodyStreamWriter :: "stream_writer \<Rightarrow> tick list \<Rightarrow> stream_write list \<times> loop_exit" where
  "bodyStreamWriter w ticks =
     (case animationLoop (timer w) 0 ticks of (ws, ex) \<Rightarrow> (ClearScreen # ws, ex))"

text \<open>
  A session: the handler, and, when it answered with a stream, the writer run by the
  framework over the ticks of that connection. The writer reads and writes nothing of
  the server state, so the order of the two does not matter to that state.
\<close>

definition runSession ::
  "party_env \<Rightarrow> server \<Rightarrow> string \<Rightarrow> RenderOptions \<Rightarrow> tick list
     \<Rightarrow> server \<times> outcome \<times> (stream_write list \<times> loop_exit) option" where
  "runSession env srv param opts ticks =
     (case partyHandler env srv param opts of
        (srv', Returns (BodyStream w)) \<Rightarrow>
          (srv', Returns (BodyStream w), Some (bodyStreamWriter w ticks))
      | (srv', out) \<Rightarrow> (srv', out, None))"

subsection \<open>A sample server\<close>

text \<open>
  Capacity 1 and nothing running; a renderer that returns its art; a server maximum of
  30 s; \<^verbatim>\<open>streamAnimated\<close> returns one millisecond after creating the timer.
\<close>

definition sample_server :: server where
  "sample_server =
     \<lparr>connManager = NewConnectionManager 1,
      metrics = \<lparr>PartyRequests = 0, ActiveStreams = 0, RejectedStreams = 0, TotalErrors = 0\<rparr>,
      releaseCalls = 0\<rparr>"

definition sample_env :: party_env where
  "sample_env =
     \<lparr>generateASCII = (\<lambda>text opts. Ascii ''art''),
      seconds = sample_seconds,
      maxStreamDuration = 30 * Second,
      returnsAfter = Millisecond\<rparr>"

section \<open>Properties of the connection manager\<close>

lemma sint_succ_below:
  fixes a m :: int64
  assumes "sint a < sint m"
  shows "sint (a + 1) = sint a + 1"
proof -
  have "sint m < 2 ^ 63"
    using sint_lt [of m] by simp
  moreover have "- (2 ^ 63) \<le> sint a"
    using sint_ge [of a] by simp
  ultimately have "- (2 ^ 63) \<le> sint a + 1" and "sint a + 1 < 2 ^ 63"
    using assms by linarith+
  then have "signed_take_bit 63 (sint a + 1) = sint a + 1"
    by (rule signed_take_bit_int_eq_self)
  then show ?thesis
    by (simp add: sint_word_add)
qed

lemma sint_pred_above:
  fixes a :: int64
  assumes "0 < sint a"
  shows "sint (a + (- 1)) = sint a - 1"
proof -
  have "sint a < 2 ^ 63"
    using sint_lt [of a] by simp
  then have "- (2 ^ 63) \<le> sint a - 1" and "sint a - 1 < 2 ^ 63"
    using assms by linarith+
  then have "signed_take_bit 63 (sint a - 1) = sint a - 1"
    by (rule signed_take_bit_int_eq_self)
  then show ?thesis
    by (simp add: sint_word_diff)
qed

text \<open>
  C3. Run alone, \<^verbatim>\<open>TryAcquire\<close> on a manager whose count is strictly below
  the capacity returns true and raises the count by exactly one (no wrap-around can occur
  there); on a manager whose count is at or above the capacity it returns false and
  leaves the manager as it was. With capacity 2: two acquires succeed, the third is
  refused, and after one \<^verbatim>\<open>Release\<close> the fourth succeeds.
\<close>

theorem TryAcquire_sequential:
  "(sint (activeStreams cm) < sint (maxStreams cm) \<longrightarrow>
      fst (TryAcquire cm) = True
      \<and> maxStreams (snd (TryAcquire cm)) = maxStreams cm
      \<and> sint (GetActiveCount (snd (TryAcquire cm))) = sint (GetActiveCount cm) + 1)
   \<and> (sint (maxStreams cm) \<le> sint (activeStreams cm) \<longrightarrow>
      TryAcquire cm = (False, cm))
   \<and> (let cm0 = NewConnectionManager 2;
           (r1, cm1) = TryAcquire cm0;
           (r2, cm2) = TryAcquire cm1;
           (r3, cm3) = TryAcquire cm2;
           cm4 = Release cm3;
           (r5, cm5) = TryAcquire cm4
       in r1 \<and> r2 \<and> \<not> r3 \<and> cm3 = cm2 \<and> r5
          \<and> map GetActiveCount [cm0, cm1, cm2, cm3, cm4, cm5] = [0, 1, 2, 2, 1, 2])"
proof (intro conjI impI)
  assume below: "sint (activeStreams cm) < sint (maxStreams cm)"
  then show "fst (TryAcquire cm) = True"
    by (simp add: TryAcquire_def)
  from below show "maxStreams (snd (TryAcquire cm)) = maxStreams cm"
    by (simp add: TryAcquire_def)
  from below show "sint (GetActiveCount (snd (TryAcquire cm))) = sint (GetActiveCount cm) + 1"
    by (simp add: TryAcquire_def GetActiveCount_def sint_succ_below)
next
  assume "sint (maxStreams cm) \<le> sint (activeStreams cm)"
  then show "TryAcquire cm = (False, cm)"
    by (simp add: TryAcquire_def)
next
  show "let cm0 = NewConnectionManager 2;
           (r1, cm1) = TryAcquire cm0;
           (r2, cm2) = TryAcquire cm1;
           (r3, cm3) = TryAcquire cm2;
           cm4 = Release cm3;
           (r5, cm5) = TryAcquire cm4
       in r1 \<and> r2 \<and> \<not> r3 \<and> cm3 = cm2 \<and> r5
          \<and> map GetActiveCount [cm0, cm1, cm2, cm3, cm4, cm5] = [0, 1, 2, 2, 1, 2]"
    by (simp add: NewConnectionManager_def TryAcquire_def Release_def GetActiveCount_def)
qed

theorem TryAcquire_sequential_witness:
  "sint (activeStreams (NewConnectionManager 1)) < sint (maxStreams (NewConnectionManager 1))
   \<and> fst (TryAcquire (NewConnectionManager 1)) = True
   \<and> sint (GetActiveCount (snd (TryAcquire (NewConnectionManager 1)))) = 1
   \<and> sint (maxStreams (snd (TryAcquire (NewConnectionManager 1))))
        \<le> sint (activeStreams (snd (TryAcquire (NewConnectionManager 1))))
   \<and> TryAcquire (snd (TryAcquire (NewConnectionManager 1)))
        = (False, snd (TryAcquire (NewConnectionManager 1)))"
proof -
  have h1: "sint (activeStreams (NewConnectionManager 1)) < sint (maxStreams (NewConnectionManager 1))"
    by (simp add: NewConnectionManager_def)
  have h2: "sint (maxStreams (snd (TryAcquire (NewConnectionManager 1))))
        \<le> sint (activeStreams (snd (TryAcquire (NewConnectionManager 1))))"
    by (simp add: NewConnectionManager_def TryAcquire_def)
  show ?thesis
    using h1 h2 TryAcquire_sequential [of "NewConnectionManager 1"]
      TryAcquire_sequential [of "snd (TryAcquire (NewConnectionManager 1))"]
    by (simp add: GetActiveCount_def NewConnectionManager_def)
qed

text \<open>
  C10. \<^verbatim>\<open>Release\<close> subtracts one from the counter whatever its value: there is
  no test of the counter in it, and the capacity is untouched. On a fresh manager,
  with no acquire before it, one \<^verbatim>\<open>Release\<close> leaves
  \<^verbatim>\<open>GetActiveCount\<close> at -1.
\<close>

theorem Release_unconditional:
  "GetActiveCount (Release cm) = GetActiveCount cm - 1
   \<and> maxStreams (Release cm) = maxStreams cm
   \<and> sint (GetActiveCount (Release (NewConnectionManager m))) = - 1"
  by (simp add: Release_def GetActiveCount_def NewConnectionManager_def)

subsection \<open>Histories of non-overlapping calls\<close>

lemma cm_inv_start: "0 \<le> sint m \<Longrightarrow> cm_inv m (cm_start m)"
  by (simp add: cm_inv_def cm_start_def NewConnectionManager_def)

lemma cm_inv_acquire:
  assumes "cm_inv m r"
  shows "cm_inv m (cm_step r OpTryAcquire)"
proof (cases "sint (maxStreams (manager r)) \<le> sint (activeStreams (manager r))")
  case True
  with assms show ?thesis
    by (simp add: cm_inv_def TryAcquire_def)
next
  case False
  then have below: "sint (activeStreams (manager r)) < sint (maxStreams (manager r))"
    by simp
  have "sint (activeStreams (manager r) + 1) = sint (activeStreams (manager r)) + 1"
    using below by (rule sint_succ_below)
  with assms below False show ?thesis
    by (simp add: cm_inv_def TryAcquire_def)
qed

lemma cm_inv_release:
  assumes "cm_inv m r" and "released r < acquired r"
  shows "cm_inv m (cm_step r OpRelease)"
proof -
  from assms have pos: "0 < sint (activeStreams (manager r))"
    by (simp add: cm_inv_def)
  have "sint (activeStreams (manager r) + (- 1)) = sint (activeStreams (manager r)) - 1"
    using pos by (rule sint_pred_above)
  with assms pos show ?thesis
    by (simp add: cm_inv_def Release_def)
qed

lemma cm_inv_exec:
  "cm_inv m r \<Longrightarrow> releases_matched r ops \<Longrightarrow> cm_inv m (cm_exec r ops)"
proof (induction ops arbitrary: r)
  case Nil
  then show ?case by (simp add: cm_exec_def)
next
  case (Cons x ops)
  show ?case
  proof (cases x)
    case OpTryAcquire
    with Cons.prems have "cm_inv m (cm_step r OpTryAcquire)"
      and "releases_matched (cm_step r OpTryAcquire) ops"
      by (simp_all add: cm_inv_acquire del: cm_step.simps)
    then have "cm_inv m (cm_exec (cm_step r OpTryAcquire) ops)"
      by (rule Cons.IH)
    with OpTryAcquire show ?thesis by (simp add: cm_exec_def)
  next
    case OpRelease
    with Cons.prems have "cm_inv m (cm_step r OpRelease)"
      and "releases_matched (cm_step r OpRelease) ops"
      by (simp_all add: cm_inv_release del: cm_step.simps)
    then have "cm_inv m (cm_exec (cm_step r OpRelease) ops)"
      by (rule Cons.IH)
    with OpRelease show ?thesis by (simp add: cm_exec_def)
  qed
qed

lemma releases_matched_take:
  "releases_matched r ops \<Longrightarrow> releases_matched r (take n ops)"
proof (induction ops arbitrary: r n)
  case Nil
  then show ?case by simp
next
  case (Cons x ops)
  show ?case
  proof (cases n)
    case 0
    then show ?thesis by simp
  next
    case (Suc k)
    with Cons show ?thesis
      by (cases x) (simp_all del: cm_step.simps)
  qed
qed

text \<open>
  C4, as stated, for every manager: refuted by a manager of negative capacity, whose
  fresh counter 0 is already above \<^verbatim>\<open>maxStreams\<close> before any call is made.
\<close>

theorem count_invariant_negative_capacity:
  "releases_matched (cm_start (- 1)) []
   \<and> \<not> (0 \<le> sint (GetActiveCount (manager (cm_exec (cm_start (- 1)) [])))
        \<and> sint (GetActiveCount (manager (cm_exec (cm_start (- 1)) [])))
            \<le> sint (maxStreams (manager (cm_exec (cm_start (- 1)) []))))"
  by (simp add: cm_start_def cm_exec_def NewConnectionManager_def GetActiveCount_def)

text \<open>
  C4, amended: on a manager created with a capacity that is not negative, along every
  history of non-overlapping \<^verbatim>\<open>TryAcquire\<close> and \<^verbatim>\<open>Release\<close> calls in which
  each \<^verbatim>\<open>Release\<close> is matched to an earlier successful \<^verbatim>\<open>TryAcquire\<close>, after
  every call (every prefix of the history) \<^verbatim>\<open>GetActiveCount\<close> is the number of
  successful acquires minus the number of releases, and it lies between 0 and
  \<^verbatim>\<open>maxStreams\<close>.
\<close>

theorem count_invariant:
  assumes "0 \<le> sint m" and "releases_matched (cm_start m) ops"
  shows "sint (GetActiveCount (manager (cm_exec (cm_start m) (take n ops))))
           = int (acquired (cm_exec (cm_start m) (take n ops)))
             - int (released (cm_exec (cm_start m) (take n ops)))
         \<and> 0 \<le> sint (GetActiveCount (manager (cm_exec (cm_start m) (take n ops))))
         \<and> sint (GetActiveCount (manager (cm_exec (cm_start m) (take n ops))))
             \<le> sint (maxStreams (manager (cm_exec (cm_start m) (take n ops))))"
proof -
  have "releases_matched (cm_start m) (take n ops)"
    using assms(2) by (rule releases_matched_take)
  with assms(1) have "cm_inv m (cm_exec (cm_start m) (take n ops))"
    by (simp add: cm_inv_start cm_inv_exec)
  then show ?thesis
    by (simp add: cm_inv_def GetActiveCount_def)
qed

theorem count_invariant_witness:
  "0 \<le> sint (2 :: int64)
   \<and> releases_matched (cm_start 2)
        [OpTryAcquire, OpTryAcquire, OpTryAcquire, OpRelease, OpTryAcquire, OpRelease, OpRelease]
   \<and> sint (GetActiveCount (manager (cm_exec (cm_start 2)
        (take 5 [OpTryAcquire, OpTryAcquire, OpTryAcquire, OpRelease, OpTryAcquire, OpRelease, OpRelease]))))
      = int (acquired (cm_exec (cm_start 2)
        (take 5 [OpTryAcquire, OpTryAcquire, OpTryAcquire, OpRelease, OpTryAcquire, OpRelease, OpRelease])))
        - int (released (cm_exec (cm_start 2)
        (take 5 [OpTryAcquire, OpTryAcquire, OpTryAcquire, OpRelease, OpTryAcquire, OpRelease, OpRelease])))
   \<and> GetActiveCount (manager (cm_exec (cm_start 2)
        (take 5 [OpTryAcquire, OpTryAcquire, OpTryAcquire, OpRelease, OpTryAcquire, OpRelease, OpRelease]))) = 2"
proof -
  have h1: "0 \<le> sint (2 :: int64)" by simp
  have h2: "releases_matched (cm_start 2)
        [OpTryAcquire, OpTryAcquire, OpTryAcquire, OpRelease, OpTryAcquire, OpRelease, OpRelease]"
    by (simp add: cm_start_def NewConnectionManager_def TryAcquire_def Release_def)
  have h3: "GetActiveCount (manager (cm_exec (cm_start 2)
        (take 5 [OpTryAcquire, OpTryAcquire, OpTryAcquire, OpRelease, OpTryAcquire, OpRelease, OpRelease]))) = 2"
    by (simp add: cm_start_def cm_exec_def NewConnectionManager_def TryAcquire_def Release_def
        GetActiveCount_def)
  show ?thesis
    using h1 h2 h3 count_invariant [OF h1 h2, of 5] by blast
qed

subsection \<open>Overlapping calls\<close>

text \<open>
  A caller that takes its two steps with no other caller in between does what the
  sequential \<^verbatim>\<open>TryAcquire\<close> does.
\<close>

lemma caller_step_alone:
  "caller_step (fst (caller_step cm NotStarted)) (snd (caller_step cm NotStarted))
     = (snd (TryAcquire cm), Returned (fst (TryAcquire cm)))"
  by (simp add: TryAcquire_def)

text \<open>
  C1. The count must never exceed \<^verbatim>\<open>maxStreams\<close> under any interleaving. The
  code does not keep this: with capacity 1 and two callers, the schedule in which both
  load the counter before either adds to it lets both see the value 0, both add, and
  both return true; the count is then 2.
\<close>

theorem TryAcquire_over_admission:
  "callers (interleave (concurrent_start 1 2) [0, 1, 0, 1]) = [Returned True, Returned True]
   \<and> GetActiveCount (shared (interleave (concurrent_start 1 2) [0, 1, 0, 1])) = 2
   \<and> sint (maxStreams (shared (interleave (concurrent_start 1 2) [0, 1, 0, 1])))
       < sint (GetActiveCount (shared (interleave (concurrent_start 1 2) [0, 1, 0, 1])))"
proof -
  have run: "interleave (concurrent_start 1 2) [0, 1, 0, 1]
      = \<lparr>shared = \<lparr>activeStreams = 2, maxStreams = 1\<rparr>, callers = [Returned True, Returned True]\<rparr>"
    by (simp add: interleave_def concurrent_start_def sched_step_def NewConnectionManager_def
        numeral_2_eq_2)
  show ?thesis
    unfolding run by (simp add: GetActiveCount_def)
qed

section \<open>Properties of the font cache\<close>

text \<open>
  What the loop of \<^verbatim>\<open>LoadFonts\<close> leaves behind, from any starting map, counter and
  log: a name of the list whose file validates is bound to its font, every other name
  keeps its old binding, the counter has grown by the number of list entries that
  validate, and one line is logged per entry.
\<close>

lemma LoadFonts_loop_result:
  "LoadFonts_loop env dir names (m, k, lg) =
     ((\<lambda>n. if n \<in> set names \<and> ValidateFont env (Join env dir (n @ ''.flf'')) = None
            then Some \<lparr>Name = n, fontPath = Join env dir (n @ ''.flf'')\<rparr> else m n),
      k + length (filter (\<lambda>n. ValidateFont env (Join env dir (n @ ''.flf'')) = None) names),
      lg @ map (\<lambda>n. case ValidateFont env (Join env dir (n @ ''.flf'')) of
                       Some err \<Rightarrow> Warning n err | None \<Rightarrow> Loaded_font n) names)"
proof (induction names arbitrary: m k lg)
  case Nil
  then show ?case by simp
next
  case (Cons a names)
  show ?case
  proof (cases "ValidateFont env (Join env dir (a @ ''.flf''))")
    case None
    then show ?thesis
      by (simp add: Cons.IH fun_eq_iff)
  next
    case (Some err)
    then show ?thesis
      by (simp add: Cons.IH fun_eq_iff)
  qed
qed

lemma ValidateFont_None_iff:
  "ValidateFont env path = None \<longleftrightarrow> Stat env path = StatInfo False \<and> Open env path \<noteq> None"
  by (auto simp: ValidateFont_def split: stat_result.splits option.splits)

lemma sample_LoadFonts:
  "LoadFonts sample_disk sample_config NewFontCache =
     (\<lparr>fonts = [''standard'' \<mapsto> \<lparr>Name = ''standard'', fontPath = ''fonts/standard.flf''\<rparr>,
                ''doom'' \<mapsto> \<lparr>Name = ''doom'', fontPath = ''fonts/doom.flf''\<rparr>]\<rparr>,
      [Loaded_font ''standard'', Loaded_font ''doom'', Warning ''missing-file'' DoesNotExist,
       Loaded_count 2],
      None)"
  by (simp add: LoadFonts_def sample_disk_def sample_config_def NewFontCache_def ValidateFont_def)

lemma sample_cache_fonts:
  "fonts sample_cache =
     [''standard'' \<mapsto> \<lparr>Name = ''standard'', fontPath = ''fonts/standard.flf''\<rparr>,
      ''doom'' \<mapsto> \<lparr>Name = ''doom'', fontPath = ''fonts/doom.flf''\<rparr>]"
  by (simp add: sample_cache_def sample_LoadFonts)

text \<open>
  C8. For every font configuration and every state of the disk, \<^verbatim>\<open>LoadFonts\<close> on
  a new cache returns no error, whatever was loaded (nothing, too); a name whose file
  does not validate is passed over and the loop goes on; afterwards the cache holds
  exactly the allowed names whose files validate (a file validates when
  \<^verbatim>\<open>os.Stat\<close> finds a non-directory and \<^verbatim>\<open>os.Open\<close> succeeds), each bound to
  the font of that name and path, and the logged count is the number of allowed entries
  that validated. On the sample installation, allowing standard, doom and missing-file:
  the cache holds exactly standard and doom, the count is 2, and no error is returned.
\<close>

theorem LoadFonts_populates:
  "snd (snd (LoadFonts env cfg NewFontCache)) = None
   \<and> dom (fonts (fst (LoadFonts env cfg NewFontCache)))
       = {n. n \<in> set (Allowed cfg)
             \<and> ValidateFont env (Join env (Path cfg) (n @ ''.flf'')) = None}
   \<and> fonts (fst (LoadFonts env cfg NewFontCache))
       = (\<lambda>n. if n \<in> set (Allowed cfg)
                  \<and> Stat env (Join env (Path cfg) (n @ ''.flf'')) = StatInfo False
                  \<and> Open env (Join env (Path cfg) (n @ ''.flf'')) \<noteq> None
               then Some \<lparr>Name = n, fontPath = Join env (Path cfg) (n @ ''.flf'')\<rparr>
               else None)
   \<and> last (fst (snd (LoadFonts env cfg NewFontCache)))
       = Loaded_count (length (filter
           (\<lambda>n. ValidateFont env (Join env (Path cfg) (n @ ''.flf'')) = None) (Allowed cfg)))
   \<and> dom (fonts (fst (LoadFonts sample_disk sample_config NewFontCache)))
       = {''standard'', ''doom''}
   \<and> last (fst (snd (LoadFonts sample_disk sample_config NewFontCache))) = Loaded_count 2
   \<and> snd (snd (LoadFonts sample_disk sample_config NewFontCache)) = None"
proof -
  have run: "LoadFonts env cfg NewFontCache =
      (\<lparr>fonts = (\<lambda>n. if n \<in> set (Allowed cfg)
                        \<and> ValidateFont env (Join env (Path cfg) (n @ ''.flf'')) = None
                     then Some \<lparr>Name = n, fontPath = Join env (Path cfg) (n @ ''.flf'')\<rparr>
                     else None)\<rparr>,
       map (\<lambda>n. case ValidateFont env (Join env (Path cfg) (n @ ''.flf'')) of
                  Some err \<Rightarrow> Warning n err | None \<Rightarrow> Loaded_font n) (Allowed cfg)
         @ [Loaded_count (length (filter
             (\<lambda>n. ValidateFont env (Join env (Path cfg) (n @ ''.flf'')) = None) (Allowed cfg)))],
       None)"
    by (simp add: LoadFonts_def LoadFonts_loop_result NewFontCache_def)
  have c1: "snd (snd (LoadFonts env cfg NewFontCache)) = None"
    by (simp add: run)
  have c2: "dom (fonts (fst (LoadFonts env cfg NewFontCache)))
       = {n. n \<in> set (Allowed cfg)
             \<and> ValidateFont env (Join env (Path cfg) (n @ ''.flf'')) = None}"
    by (auto simp: run dom_def)
  have c3: "fonts (fst (LoadFonts env cfg NewFontCache))
       = (\<lambda>n. if n \<in> set (Allowed cfg)
                  \<and> Stat env (Join env (Path cfg) (n @ ''.flf'')) = StatInfo False
                  \<and> Open env (Join env (Path cfg) (n @ ''.flf'')) \<noteq> None
               then Some \<lparr>Name = n, fontPath = Join env (Path cfg) (n @ ''.flf'')\<rparr>
               else None)"
    by (simp add: run ValidateFont_None_iff)
  have c4: "last (fst (snd (LoadFonts env cfg NewFontCache)))
       = Loaded_count (length (filter
           (\<lambda>n. ValidateFont env (Join env (Path cfg) (n @ ''.flf'')) = None) (Allowed cfg)))"
    by (simp add: run)
  have c5: "dom (fonts (fst (LoadFonts sample_disk sample_config NewFontCache)))
       = {''standard'', ''doom''}"
    by (auto simp: sample_LoadFonts)
  have c6: "last (fst (snd (LoadFonts sample_disk sample_config NewFontCache))) = Loaded_count 2"
    by (simp add: sample_LoadFonts)
  have c7: "snd (snd (LoadFonts sample_disk sample_config NewFontCache)) = None"
    by (simp add: sample_LoadFonts)
  from c1 c2 c3 c4 c5 c6 c7 show ?thesis by blast
qed

section \<open>Properties of GenerateASCII\<close>

text \<open>
  C5, as stated for every input text: refuted by the empty text, which is answered with
  the empty output and no error before the cache is searched for a font, also when the
  cache holds no font at all.
\<close>

theorem GenerateASCII_empty_text_empty_cache:
  "fonts NewFontCache = Map.empty
   \<and> GenerateASCII sample_disk [] sample_options (Some NewFontCache) = Inr []
   \<and> GenerateASCII sample_disk [] sample_options (Some NewFontCache) \<noteq> Inl NoFontsLoaded"
  by (simp add: GenerateASCII_def NewFontCache_def)

text \<open>
  C5, amended: for every text that is not empty and every options value,
  \<^verbatim>\<open>GenerateASCII\<close> on a cache that holds no font fails with "no fonts loaded";
  on a nil cache it fails with "font cache is nil", for every text (the empty one too).
\<close>

theorem GenerateASCII_cache_errors:
  "(text \<noteq> [] \<longrightarrow> fonts fc = Map.empty \<longrightarrow>
      GenerateASCII env text opts (Some fc) = Inl NoFontsLoaded)
   \<and> GenerateASCII env text opts None = Inl FontCacheIsNil"
  by (simp add: GenerateASCII_def GetFontOrDefault_def)

theorem GenerateASCII_cache_errors_witness:
  "''TEST'' \<noteq> [] \<and> fonts NewFontCache = Map.empty
   \<and> GenerateASCII sample_disk ''TEST'' sample_options (Some NewFontCache) = Inl NoFontsLoaded
   \<and> GenerateASCII sample_disk ''TEST'' sample_options None = Inl FontCacheIsNil"
proof -
  have h1: "''TEST'' \<noteq> []" by simp
  have h2: "fonts NewFontCache = Map.empty" by (simp add: NewFontCache_def)
  show ?thesis
    using h1 h2
      GenerateASCII_cache_errors [of "''TEST''" NewFontCache sample_disk sample_options]
    by blast
qed

text \<open>
  C6, as stated for every cache: refuted by the nil cache, for which the empty text is
  answered with the error "font cache is nil", since the cache is tested first.
\<close>

theorem GenerateASCII_empty_text_nil_cache:
  "GenerateASCII sample_disk [] sample_options None = Inl FontCacheIsNil
   \<and> GenerateASCII sample_disk [] sample_options None \<noteq> Inr []"
  by (simp add: GenerateASCII_def)

text \<open>
  C6, amended: for every options value and every cache that is not nil (whatever fonts
  it holds, none included), \<^verbatim>\<open>GenerateASCII\<close> of the empty text returns the empty
  output and no error.
\<close>

theorem GenerateASCII_empty_text:
  "GenerateASCII env [] opts (Some fc) = Inr []"
  by (simp add: GenerateASCII_def)

text \<open>
  C7. For every text and every cache in which the default font ("standard") is
  loaded, \<^verbatim>\<open>GenerateASCII\<close> with options naming a font that is not in the cache
  returns what it returns for the same options with the font set to the default name;
  the font it renders with is the cache's default font.
\<close>

theorem GenerateASCII_fallback:
  assumes "fonts fc (Font opts) = None" and "fonts fc DefaultFont = Some dflt"
  shows "GenerateASCII env text opts (Some fc)
           = GenerateASCII env text (opts\<lparr>Font := DefaultFont\<rparr>) (Some fc)
         \<and> GetFontOrDefault fc (Font opts) DefaultFont = Some dflt"
  using assms by (simp add: GenerateASCII_def GetFontOrDefault_def)

theorem GenerateASCII_fallback_witness:
  "fonts sample_cache (Font sample_options) = None
   \<and> fonts sample_cache DefaultFont
       = Some \<lparr>Name = ''standard'', fontPath = ''fonts/standard.flf''\<rparr>
   \<and> GenerateASCII sample_disk ''TEST'' sample_options (Some sample_cache)
       = GenerateASCII sample_disk ''TEST'' (sample_options\<lparr>Font := DefaultFont\<rparr>)
           (Some sample_cache)
   \<and> GenerateASCII sample_disk ''TEST'' sample_options (Some sample_cache)
       = Inr ''flf2a standard: TEST''"
proof -
  have h1: "fonts sample_cache (Font sample_options) = None"
    by (simp add: sample_cache_fonts sample_options_def)
  have h2: "fonts sample_cache DefaultFont
       = Some \<lparr>Name = ''standard'', fontPath = ''fonts/standard.flf''\<rparr>"
    by (simp add: sample_cache_fonts DefaultFont_def)
  have out: "GenerateASCII sample_disk ''TEST'' sample_options (Some sample_cache)
       = Inr ''flf2a standard: TEST''"
    by (simp add: GenerateASCII_def GetFontOrDefault_def h1 h2 Font_Render_def sample_disk_def)
  show ?thesis
    using h1 h2 out GenerateASCII_fallback [OF h1 h2, of sample_disk "''TEST''"]
    by blast
qed

section \<open>Properties of the party-mode handler\<close>

subsection \<open>The admission slot of a session\<close>

text \<open>
  An admitted call of \<^verbatim>\<open>partyHandler\<close> makes exactly one call of
  \<^verbatim>\<open>Release\<close>, when the handler is left, and the counter is then back at its
  value; a rejected call makes none.
\<close>

lemma Release_after_acquire:
  "fst (TryAcquire cm) \<Longrightarrow> Release (snd (TryAcquire cm)) = cm"
  by (simp add: TryAcquire_def Release_def split: if_splits)

lemma metrics_updates_keep:
  "connManager (add_PartyRequests srv) = connManager srv"
  "releaseCalls (add_PartyRequests srv) = releaseCalls srv"
  "connManager (add_RejectedStreams srv) = connManager srv"
  "releaseCalls (add_RejectedStreams srv) = releaseCalls srv"
  "connManager (add_TotalErrors srv) = connManager srv"
  "releaseCalls (add_TotalErrors srv) = releaseCalls srv"
  "connManager (add_ActiveStreams d srv) = connManager srv"
  "releaseCalls (add_ActiveStreams d srv) = releaseCalls srv"
  by (simp_all add: add_PartyRequests_def add_RejectedStreams_def add_TotalErrors_def
      add_ActiveStreams_def)

lemma streamAnimated_keeps:
  "connManager (fst (streamAnimated env srv text opts)) = connManager srv"
  "releaseCalls (fst (streamAnimated env srv text opts)) = releaseCalls srv"
  by (cases "generateASCII env text opts"; simp add: streamAnimated_def metrics_updates_keep)+

lemma partyHandler_admitted_keeps:
  "connManager (fst (partyHandler_admitted env srv param opts)) = connManager srv"
  "releaseCalls (fst (partyHandler_admitted env srv param opts)) = releaseCalls srv"
  by (simp_all add: partyHandler_admitted_def streamAnimated_keeps Let_def split: option.splits)

lemma fst_runSession:
  "fst (runSession env srv param opts ticks) = fst (partyHandler env srv param opts)"
  by (simp add: runSession_def split: prod.splits outcome.splits response.splits)

lemma partyHandler_admitted_state:
  assumes "fst (TryAcquire (connManager srv))"
  shows "releaseCalls (fst (partyHandler env srv param opts)) = releaseCalls srv + 1"
    and "connManager (fst (partyHandler env srv param opts)) = connManager srv"
proof -
  define srv1 where "srv1 = add_PartyRequests srv"
  obtain cm' where acq: "TryAcquire (connManager srv1) = (True, cm')"
    using assms by (cases "TryAcquire (connManager srv)") (simp add: srv1_def metrics_updates_keep)
  obtain srv2 out where body:
    "partyHandler_admitted env (srv1\<lparr>connManager := cm'\<rparr>) param opts = (srv2, out)"
    by (cases "partyHandler_admitted env (srv1\<lparr>connManager := cm'\<rparr>) param opts")
  have keep: "connManager srv2 = cm'" "releaseCalls srv2 = releaseCalls srv"
    using partyHandler_admitted_keeps [of env "srv1\<lparr>connManager := cm'\<rparr>" param opts]
    unfolding body by (simp_all add: srv1_def metrics_updates_keep)
  have ph: "partyHandler env srv param opts = (call_Release srv2, out)"
    using acq body by (simp add: partyHandler_def srv1_def)
  have rel: "Release cm' = connManager srv"
    using Release_after_acquire [OF assms] acq by (simp add: srv1_def metrics_updates_keep)
  show "releaseCalls (fst (partyHandler env srv param opts)) = releaseCalls srv + 1"
    by (simp add: ph call_Release_def keep)
  show "connManager (fst (partyHandler env srv param opts)) = connManager srv"
    by (simp add: ph call_Release_def keep rel)
qed

lemma partyHandler_rejected_state:
  assumes "\<not> fst (TryAcquire (connManager srv))"
  shows "releaseCalls (fst (partyHandler env srv param opts)) = releaseCalls srv"
    and "snd (partyHandler env srv param opts)
           = Returns (SendString 503 ''Error: Too many active streams. Please try again later.'')"
proof -
  define srv1 where "srv1 = add_PartyRequests srv"
  obtain cm' where acq: "TryAcquire (connManager srv1) = (False, cm')"
    using assms by (cases "TryAcquire (connManager srv)") (simp add: srv1_def metrics_updates_keep)
  have ph: "partyHandler env srv param opts = (add_RejectedStreams srv1,
     Returns (SendString 503 ''Error: Too many active streams. Please try again later.''))"
    using acq by (simp add: partyHandler_def srv1_def)
  show "releaseCalls (fst (partyHandler env srv param opts)) = releaseCalls srv"
    by (simp add: ph srv1_def metrics_updates_keep)
  show "snd (partyHandler env srv param opts)
           = Returns (SendString 503 ''Error: Too many active streams. Please try again later.'')"
    by (simp add: ph)
qed

subsection \<open>The timer of a session\<close>

text \<open>
  The writer of every stream holds the timer created with the deadline and stopped at
  the return of \<^verbatim>\<open>streamAnimated\<close>. When that return comes before the deadline
  has run, the timer never delivers: no session takes the loop's timeout case, and as
  long as the flushes succeed the stream goes on, whatever the deadline is.
\<close>

lemma streamAnimated_writer:
  assumes "snd (streamAnimated env srv t opts) = Returns (BodyStream w)"
  shows "timer w = Timer_Stop (returnsAfter env)
           (NewTimer (timeoutDuration (maxStreamDuration env) (Timeout opts)))"
  using assms by (cases "generateASCII env t opts") (auto simp: streamAnimated_def)

lemma partyHandler_admitted_writer:
  assumes "snd (partyHandler_admitted env srv param opts) = Returns (BodyStream w)"
  shows "timer w = Timer_Stop (returnsAfter env)
           (NewTimer (effectiveDeadline (seconds env) (maxStreamDuration env) (Timeout opts)))"
  using assms
  by (auto simp: partyHandler_admitted_def Let_def effectiveDeadline_def
      split: if_splits option.splits dest!: streamAnimated_writer)

lemma partyHandler_writer:
  assumes "snd (partyHandler env srv param opts) = Returns (BodyStream w)"
  shows "timer w = Timer_Stop (returnsAfter env)
           (NewTimer (effectiveDeadline (seconds env) (maxStreamDuration env) (Timeout opts)))"
proof -
  obtain ok cm' where acq: "TryAcquire (connManager (add_PartyRequests srv)) = (ok, cm')"
    by (cases "TryAcquire (connManager (add_PartyRequests srv))")
  show ?thesis
  proof (cases ok)
    case False
    with acq assms show ?thesis
      by (simp add: partyHandler_def)
  next
    case True
    with acq assms
    have "snd (partyHandler_admitted env (add_PartyRequests srv\<lparr>connManager := cm'\<rparr>) param opts)
        = Returns (BodyStream w)"
      by (simp add: partyHandler_def split: prod.splits)
    then show ?thesis by (rule partyHandler_admitted_writer)
  qed
qed

lemma stopped_before_firing:
  "s < d \<Longrightarrow> \<not> Timer_delivers (Timer_Stop s (NewTimer d)) now"
  by (simp add: Timer_delivers_def Timer_Stop_def NewTimer_def Let_def)

lemma animationLoop_silent_timer:
  assumes "\<And>now. \<not> Timer_delivers tm now"
  shows "snd (animationLoop tm frame ticks) \<noteq> TimedOut"
proof (induction ticks arbitrary: frame)
  case Nil
  show ?case by simp
next
  case (Cons e ticks)
  obtain now ok where e: "e = Tick now ok" by (cases e)
  have "snd (animationLoop tm (frame + 1) ticks) \<noteq> TimedOut" by (rule Cons.IH)
  then show ?case
    by (cases "animationLoop tm (frame + 1) ticks") (simp add: e assms)
qed

lemma animationLoop_keeps_streaming:
  assumes "\<And>now. \<not> Timer_delivers tm now" and "\<forall>e \<in> set ticks. flushed e"
  shows "snd (animationLoop tm frame ticks) = StillStreaming
         \<and> length (fst (animationLoop tm frame ticks)) = length ticks"
  using assms(2)
proof (induction ticks arbitrary: frame)
  case Nil
  show ?case by simp
next
  case (Cons e ticks)
  obtain now ok where e: "e = Tick now ok" by (cases e)
  from Cons.prems have rest: "\<forall>e \<in> set ticks. flushed e" and ok: ok
    by (simp_all add: e)
  have "snd (animationLoop tm (frame + 1) ticks) = StillStreaming
      \<and> length (fst (animationLoop tm (frame + 1) ticks)) = length ticks"
    using rest by (rule Cons.IH)
  then show ?case
    by (cases "animationLoop tm (frame + 1) ticks") (simp add: e ok assms(1))
qed

lemma session_never_times_out:
  assumes "returnsAfter env < effectiveDeadline (seconds env) (maxStreamDuration env) (Timeout opts)"
  shows "snd (snd (runSession env srv param opts ticks)) \<noteq> Some (ws, TimedOut)"
proof (cases "snd (partyHandler env srv param opts)")
  case Panics
  then show ?thesis
    by (cases "partyHandler env srv param opts") (simp add: runSession_def)
next
  case (Returns resp)
  show ?thesis
  proof (cases resp)
    case (SendString code body)
    with Returns show ?thesis
      by (cases "partyHandler env srv param opts") (simp add: runSession_def)
  next
    case (BodyStream w)
    with Returns have out: "snd (partyHandler env srv param opts) = Returns (BodyStream w)"
      by simp
    have "\<not> Timer_delivers (timer w) now" for now
      unfolding partyHandler_writer [OF out] using assms by (rule stopped_before_firing)
    then have "snd (animationLoop (timer w) 0 ticks) \<noteq> TimedOut"
      by (rule animationLoop_silent_timer)
    then have "bodyStreamWriter w ticks \<noteq> (ws, TimedOut)"
      by (cases "animationLoop (timer w) 0 ticks") (auto simp: bodyStreamWriter_def)
    with out show ?thesis
      by (cases "partyHandler env srv param opts") (simp add: runSession_def)
  qed
qed

lemma session_keeps_streaming:
  assumes "returnsAfter env < effectiveDeadline (seconds env) (maxStreamDuration env) (Timeout opts)"
    and "snd (partyHandler env srv param opts) = Returns (BodyStream w)"
    and "\<forall>e \<in> set ticks. flushed e"
  shows "snd (bodyStreamWriter w ticks) = StillStreaming"
proof -
  have "\<not> Timer_delivers (timer w) now" for now
    unfolding partyHandler_writer [OF assms(2)] using assms(1) by (rule stopped_before_firing)
  then have "snd (animationLoop (timer w) 0 ticks) = StillStreaming"
    using assms(3) by (simp add: animationLoop_keeps_streaming)
  then show ?thesis
    by (cases "animationLoop (timer w) 0 ticks") (simp add: bodyStreamWriter_def)
qed

text \<open>
  Sessions on the sample server, one for each way out of the handler: a stream whose
  client leaves (a failed flush), a render error, a panic of the renderer, rejected
  options, a text without a valid character, and a request that finds no free slot. The
  last component of each result is the number of \<^verbatim>\<open>Release\<close> calls.
\<close>

lemma sample_sessions:
  "(case runSession sample_env sample_server ''HI+YOU'' (sample_options\<lparr>Font := ''doom''\<rparr>)
           [Tick (120 * Millisecond) True, Tick (240 * Millisecond) False] of
      (srv, out, run) \<Rightarrow> (out, run, releaseCalls srv))
     = (Returns (BodyStream
          \<lparr>art = ''art'', timer = \<lparr>duration = 30 * Second, stoppedAt = Some Millisecond\<rparr>,
           frameDelay = 120 * Millisecond\<rparr>),
        Some ([ClearScreen, Frame 0, Frame 1], ClientGone), 1)"
  "(case runSession (sample_env\<lparr>generateASCII := \<lambda>text opts. AsciiError\<rparr>) sample_server
           ''HI+YOU'' (sample_options\<lparr>Font := ''doom''\<rparr>) [] of
      (srv, out, run) \<Rightarrow> (out, run, releaseCalls srv))
     = (Returns (SendString 500 ''Error generating ASCII art''), None, 1)"
  "(case runSession (sample_env\<lparr>generateASCII := \<lambda>text opts. AsciiPanic\<rparr>) sample_server
           ''HI+YOU'' (sample_options\<lparr>Font := ''doom''\<rparr>) [] of
      (srv, out, run) \<Rightarrow> (out, run, releaseCalls srv))
     = (Panics, None, 1)"
  "(case runSession sample_env sample_server ''HI+YOU'' sample_options [] of
      (srv, out, run) \<Rightarrow> (out, run, releaseCalls srv))
     = (Returns (SendString 400 ''Error: invalid font: nonexistent''), None, 1)"
  "(case runSession sample_env sample_server [CHR 0x07] sample_options [] of
      (srv, out, run) \<Rightarrow> (out, run, releaseCalls srv))
     = (Returns (SendString 400 ''Error: Text contains no valid characters''), None, 1)"
  "(case runSession sample_env (sample_server\<lparr>connManager := NewConnectionManager 0\<rparr>)
           ''HI+YOU'' (sample_options\<lparr>Font := ''doom''\<rparr>) [] of
      (srv, out, run) \<Rightarrow> (out, run, releaseCalls srv))
     = (Returns (SendString 503 ''Error: Too many active streams. Please try again later.''),
        None, 0)"
  by (simp_all add: runSession_def partyHandler_def partyHandler_admitted_def streamAnimated_def
      sample_server_def sample_env_def sample_options_def sample_seconds_def
      NewConnectionManager_def TryAcquire_def call_Release_def Release_def GetActiveCount_def
      add_PartyRequests_def add_RejectedStreams_def add_ActiveStreams_def add_TotalErrors_def
      cleanForFiglet_def ReplaceAll_plus_def validateOptions_def validFonts_def validAligns_def
      MaxSpeed_def MinSpeed_def applyTimeoutLimits_def timeoutDuration_def
      calculateFrameDelay_def wrap64_def Second_def Minute_def Millisecond_def
      DefaultStreamTimeout_def bodyStreamWriter_def NewTimer_def Timer_Stop_def
      Timer_delivers_def)

text \<open>
  C2. Every admitted session must reach Closed, on the timeout path as on the others,
  with its one release made there. The code does not keep this. For the request
  \<^verbatim>\<open>/p/PARTY?t=1\<close> on the sample server (a free slot, a server maximum of 30 s) and
  a client that goes on reading: the handler returns a stream whose timer, created with
  the deadline of 1 s, was stopped one millisecond after its creation; \<^verbatim>\<open>Release\<close>
  has been called once and the count is back at 0 while the stream runs; the ticks at
  1.2 s and 2.04 s, after the deadline, are answered with further frames, and the
  session is still streaming. The same loop on the timer left running ends by the
  timeout at the tick after the deadline.
\<close>

theorem party_session_not_closed:
  "(case runSession sample_env sample_server ''PARTY''
           (sample_options\<lparr>Font := ''doom'', Color := [], Timeout := 1\<rparr>)
           [Tick (120 * Millisecond) True, Tick (1200 * Millisecond) True,
            Tick (2040 * Millisecond) True] of
      (srv, out, run) \<Rightarrow> (out, run, releaseCalls srv, GetActiveCount (connManager srv)))
     = (Returns (BodyStream
          \<lparr>art = ''art'', timer = \<lparr>duration = 1 * Second, stoppedAt = Some Millisecond\<rparr>,
           frameDelay = 120 * Millisecond\<rparr>),
        Some ([ClearScreen, Frame 0, Frame 1, Frame 2], StillStreaming), 1, 0)
   \<and> animationLoop (NewTimer (1 * Second)) 0
        [Tick (120 * Millisecond) True, Tick (1200 * Millisecond) True,
         Tick (2040 * Millisecond) True]
     = ([Frame 0, ColorReset], TimedOut)"
  by (simp add: runSession_def partyHandler_def partyHandler_admitted_def streamAnimated_def
      sample_server_def sample_env_def sample_options_def sample_seconds_def
      NewConnectionManager_def TryAcquire_def call_Release_def Release_def GetActiveCount_def
      add_PartyRequests_def add_RejectedStreams_def add_ActiveStreams_def add_TotalErrors_def
      cleanForFiglet_def ReplaceAll_plus_def validateOptions_def validFonts_def validAligns_def
      MaxSpeed_def MinSpeed_def applyTimeoutLimits_def timeoutDuration_def
      calculateFrameDelay_def wrap64_def Second_def Minute_def Millisecond_def
      DefaultStreamTimeout_def bodyStreamWriter_def NewTimer_def Timer_Stop_def
      Timer_delivers_def)

subsection \<open>The deadline of a stream\<close>

lemma wrap64_id: "- (2 ^ 63) \<le> x \<Longrightarrow> x < 2 ^ 63 \<Longrightarrow> wrap64 x = x"
  by (simp add: wrap64_def)

lemma timeoutDuration_Default:
  "timeoutDuration M 300 = min DefaultStreamTimeout M"
  by (simp add: timeoutDuration_def wrap64_def Second_def DefaultStreamTimeout_def Minute_def
      min_def)

lemma effectiveDeadline_substituted:
  assumes "secs DefaultStreamTimeout = 300" and "r = 0 \<or> secs M < r"
  shows "effectiveDeadline secs M r = min DefaultStreamTimeout M"
  using assms
  by (auto simp add: effectiveDeadline_def applyTimeoutLimits_def timeoutDuration_Default)

lemma effectiveDeadline_kept:
  assumes "0 < r" and "r \<le> secs M" and "r * Second < 2 ^ 63"
  shows "effectiveDeadline secs M r = min (r * Second) M"
proof -
  have "0 \<le> r * Second"
    using assms(1) by (simp add: Second_def)
  with assms(3) have "wrap64 (r * Second) = r * Second"
    by (intro wrap64_id) linarith+
  with assms(1,2) show ?thesis
    by (simp add: effectiveDeadline_def applyTimeoutLimits_def timeoutDuration_def min_def)
qed

text \<open>
  The timer of a stream is created with this deadline.
\<close>

lemma partyHandler_stream_deadline:
  assumes "snd (partyHandler env srv param opts) = Returns (BodyStream w)"
  shows "duration (timer w)
           = effectiveDeadline (seconds env) (maxStreamDuration env) (Timeout opts)"
  by (simp add: partyHandler_writer [OF assms] Timer_Stop_def NewTimer_def)

text \<open>
  C9, as stated for every requested timeout and every server maximum: refuted where the
  server maximum is above the default (a request of 700 s against a maximum of 600 s is
  given the default, 300 s, not the maximum), and for a negative request (the default,
  300 s, also against a maximum of 30 s).
\<close>

theorem effectiveDeadline_not_minimum:
  "effectiveDeadline sample_seconds (600 * Second) 700 = 300 * Second
   \<and> effectiveDeadline sample_seconds (600 * Second) 700 \<noteq> min (700 * Second) (600 * Second)
   \<and> effectiveDeadline sample_seconds (30 * Second) (- 1) = 300 * Second
   \<and> effectiveDeadline sample_seconds (30 * Second) (- 1) \<noteq> min (- 1 * Second) (30 * Second)"
  by (simp add: effectiveDeadline_def applyTimeoutLimits_def timeoutDuration_def
      sample_seconds_def wrap64_def Second_def DefaultStreamTimeout_def Minute_def)

text \<open>
  C9, amended: for every requested timeout \<open>r\<close> that is not negative and every server
  maximum duration \<open>M\<close>, the deadline of the stream is the minimum of \<open>M\<close> and a
  substituted request: the server default (5 minutes) when the request is 0 or above
  \<^verbatim>\<open>int(M.Seconds())\<close>, the request itself otherwise. So the deadline is the minimum
  of the requested timeout (the default for 0) and the server maximum whenever the
  request is not above \<^verbatim>\<open>int(M.Seconds())\<close>, or the server maximum is not above the
  default; a request of 100 s against a server maximum of 30 s has the deadline 30 s.
  Of the conversion \<open>secs\<close> (\<^verbatim>\<open>int(d.Seconds())\<close>) this takes that it gives 300 for
  the default of 300 s, that a request it lets pass does not overflow a duration, and,
  for the second statement, that it does not fall a whole second below \<open>M\<close>.
\<close>

theorem effectiveDeadline_minimum:
  assumes "0 \<le> r" and "secs DefaultStreamTimeout = 300"
    and "r \<le> secs M \<Longrightarrow> r * Second < 2 ^ 63"
  shows "effectiveDeadline secs M r
           = min (if r = 0 \<or> secs M < r then DefaultStreamTimeout else r * Second) M
         \<and> (r \<le> secs M \<or> (M \<le> DefaultStreamTimeout \<and> M < (secs M + 1) * Second) \<longrightarrow>
              effectiveDeadline secs M r = min (if r = 0 then DefaultStreamTimeout else r * Second) M)
         \<and> effectiveDeadline secs (30 * Second) 100 = 30 * Second"
proof (intro conjI impI)
  show A: "effectiveDeadline secs M r
           = min (if r = 0 \<or> secs M < r then DefaultStreamTimeout else r * Second) M"
  proof (cases "r = 0 \<or> secs M < r")
    case True
    then show ?thesis by (simp add: effectiveDeadline_substituted assms(2))
  next
    case False
    with assms(1) have "0 < r" and "r \<le> secs M" by auto
    with assms(3) have "effectiveDeadline secs M r = min (r * Second) M"
      by (simp add: effectiveDeadline_kept)
    with False show ?thesis by simp
  qed
  show "effectiveDeadline secs M r = min (if r = 0 then DefaultStreamTimeout else r * Second) M"
    if cond: "r \<le> secs M \<or> (M \<le> DefaultStreamTimeout \<and> M < (secs M + 1) * Second)"
  proof (cases "r \<noteq> 0 \<and> secs M < r")
    case False
    then show ?thesis using A by auto
  next
    case True
    with cond have MD: "M \<le> DefaultStreamTimeout" and up: "M < (secs M + 1) * Second"
      by auto
    have "(secs M + 1) * Second \<le> r * Second"
      using True by (simp add: Second_def)
    with up have "M \<le> r * Second" by simp
    with True MD show ?thesis
      by (simp add: effectiveDeadline_substituted assms(2) min_def)
  qed
  show "effectiveDeadline secs (30 * Second) 100 = 30 * Second"
    using assms(2)
    by (simp add: effectiveDeadline_def applyTimeoutLimits_def timeoutDuration_def wrap64_def
        Second_def DefaultStreamTimeout_def Minute_def)
qed

theorem effectiveDeadline_minimum_witness:
  "(0::int) \<le> 20 \<and> sample_seconds DefaultStreamTimeout = 300
   \<and> 20 \<le> sample_seconds (30 * Second) \<and> 20 * Second < 2 ^ 63
   \<and> effectiveDeadline sample_seconds (30 * Second) 20 = 20 * Second
   \<and> effectiveDeadline sample_seconds (30 * Second) 20 = min (20 * Second) (30 * Second)
   \<and> effectiveDeadline sample_seconds (30 * Second) 100 = 30 * Second"
proof -
  have h1: "(0::int) \<le> 20" by simp
  have h2: "sample_seconds DefaultStreamTimeout = 300"
    by (simp add: sample_seconds_def DefaultStreamTimeout_def Minute_def Second_def)
  have h3: "20 * Second < 2 ^ 63" by (simp add: Second_def)
  have h4: "20 \<le> sample_seconds (30 * Second)"
    by (simp add: sample_seconds_def Second_def)
  have h5: "min (20 * Second) (30 * Second) = 20 * Second"
    by (simp add: Second_def)
  show ?thesis
    using h1 h2 h3 h4 h5
      effectiveDeadline_minimum [where r = 20 and secs = sample_seconds and M = "30 * Second"]
    by simp
qed

end
